theory Spec2Isabelle
  imports Main
begin

section \<open>The client session store of ace\_music\_gen (stores/session-store.ts)\<close>

text \<open>
  The store is a zustand store: one state object, read with \<^verbatim>\<open>get()\<close> and updated with
  \<^verbatim>\<open>set(...)\<close>, which merges the given fields into the state. The model passes the state
  explicitly. Everything the store does to the outside (requests of the API client, opening and
  closing an event source) is appended to a trace, so that claims about what was requested, and
  in which order, can be stated. An \<^verbatim>\<open>async\<close> action runs synchronously up to its
  \<^verbatim>\<open>await\<close> and continues when the awaited request settles; each action is therefore split
  at its \<^verbatim>\<open>await\<close> into a \<open>begin\<close> and a \<open>resume\<close> function, and the response of the API
  client, whose code is not part of the store, is an argument of \<open>resume\<close>.
\<close>

subsection \<open>Data (the types the store imports)\<close>

type_synonym session_id = string
type_synonym es_handle = nat

record conversation_turn =
  role :: string
  content :: string
  timestamp :: string
  metadata :: "string option"

record lyrics_version =
  version :: int
  lv_content :: string
  approved :: bool
  user_feedback :: "string option"
  created_at :: string
  pinyin_annotated :: "string option"

record debug_log =
  dl_timestamp :: string
  level :: string
  message :: string
  dl_metadata :: string

datatype user_requirement = UserRequirement string

datatype session_result = SessionResult string

text \<open>
  \<^verbatim>\<open>SessionState\<close>, the payload of \<^verbatim>\<open>getSessionState\<close>. The store reads every field but
  \<^verbatim>\<open>current_stage\<close> through \<^verbatim>\<open>|| default\<close>, so those fields may be missing: \<open>None\<close>.
\<close>

record session_state =
  current_stage :: string
  stage_description :: "string option"
  progress_percentage :: "int option"
  conversation_history :: "conversation_turn list option"
  user_requirement :: "user_requirement option"
  lyrics_versions :: "lyrics_version list option"
  debug_logs :: "debug_log list option"

record session_data =
  session_id :: string

text \<open>
  \<^verbatim>\<open>APIResponse<T>\<close>: \<open>error_message\<close> is \<^verbatim>\<open>response.error?.message\<close>. A request either
  resolves to a response or rejects with a thrown value, which is an \<^verbatim>\<open>Error\<close> with a message
  or something else.
\<close>

record 'd api_response =
  success :: bool
  data :: "'d option"
  error_message :: "string option"

datatype thrown = Error_obj string | Non_error

datatype 'd api_outcome = Resolved "'d api_response" | Rejected thrown

subsection \<open>The store state\<close>

text \<open>
  The fields of \<^verbatim>\<open>SessionStore\<close>; \<open>eventSource\<close> is \<^verbatim>\<open>_eventSource\<close>, an event source
  being known by its handle. Progress is a whole number of percent.
\<close>

record store =
  sessionId :: "session_id option"
  isConnected :: bool
  connectionError :: "string option"
  currentStage :: string
  stageDescription :: string
  progressPercentage :: int
  conversationHistory :: "conversation_turn list"
  userRequirement :: "user_requirement option"
  lyricsVersions :: "lyrics_version list"
  debugLogs :: "debug_log list"
  showDebugPanel :: bool
  sessionResult :: "session_result option"
  isLoading :: bool
  error :: "string option"
  eventSource :: "es_handle option"

datatype effect =
    Api_startSession string
  | Api_sendMessage session_id string
  | Api_reviewLyrics session_id int bool "string option"
  | Api_getSessionState session_id
  | Api_createEventSource session_id es_handle
  | Api_getSessionResult session_id
  | Es_close es_handle

record world =
  store :: store
  trace :: "effect list"
  next_es :: es_handle

text \<open>A suspended action: what it awaits, with the variables its continuation has captured.\<close>

datatype task =
    Await_startSession
  | Await_sendMessage
  | Await_reviewLyrics int bool "string option"
  | Await_getSessionState session_id
  | Await_getSessionResult

subsection \<open>The messages of the store, as UTF-8 bytes\<close>

definition SSE_FAILED :: string where
  "SSE_FAILED = ''SSE'' @ [CHR 0xE8, CHR 0xBF, CHR 0x9E, CHR 0xE6, CHR 0x8E, CHR 0xA5,
     CHR 0xE5, CHR 0xA4, CHR 0xB1, CHR 0xE8, CHR 0xB4, CHR 0xA5]"

definition START_FAILED :: string where
  "START_FAILED = [CHR 0xE5, CHR 0x88, CHR 0x9B, CHR 0xE5, CHR 0xBB, CHR 0xBA, CHR 0xE4, CHR 0xBC,
     CHR 0x9A, CHR 0xE8, CHR 0xAF, CHR 0x9D, CHR 0xE5, CHR 0xA4, CHR 0xB1, CHR 0xE8, CHR 0xB4, CHR 0xA5]"

definition SEND_FAILED :: string where
  "SEND_FAILED = [CHR 0xE5, CHR 0x8F, CHR 0x91, CHR 0xE9, CHR 0x80, CHR 0x81, CHR 0xE6, CHR 0xB6,
     CHR 0x88, CHR 0xE6, CHR 0x81, CHR 0xAF, CHR 0xE5, CHR 0xA4, CHR 0xB1, CHR 0xE8, CHR 0xB4, CHR 0xA5]"

definition REVIEW_FAILED :: string where
  "REVIEW_FAILED = [CHR 0xE6, CHR 0xAD, CHR 0x8C, CHR 0xE8, CHR 0xAF, CHR 0x8D, CHR 0xE5, CHR 0xAE,
     CHR 0xA1, CHR 0xE6, CHR 0xA0, CHR 0xB8, CHR 0xE5, CHR 0xA4, CHR 0xB1, CHR 0xE8, CHR 0xB4, CHR 0xA5]"

definition SESSION_CREATED :: string where
  "SESSION_CREATED = [CHR 0xE4, CHR 0xBC, CHR 0x9A, CHR 0xE8, CHR 0xAF, CHR 0x9D, CHR 0xE5, CHR 0xB7,
     CHR 0xB2, CHR 0xE5, CHR 0x88, CHR 0x9B, CHR 0xE5, CHR 0xBB, CHR 0xBA, CHR 0xEF, CHR 0xBC, CHR 0x8C,
     CHR 0xE6, CHR 0xAD, CHR 0xA3, CHR 0xE5, CHR 0x9C, CHR 0xA8, CHR 0xE5, CHR 0x88, CHR 0x9D, CHR 0xE5,
     CHR 0xA7, CHR 0x8B, CHR 0xE5, CHR 0x8C, CHR 0x96] @ ''...''"

subsection \<open>JavaScript operators the store uses\<close>

text \<open>
  \<^verbatim>\<open>!sessionId\<close> is true for \<^verbatim>\<open>null\<close> and for the empty string; \<^verbatim>\<open>x || d\<close> is \<open>d\<close> when
  \<open>x\<close> is missing, empty or zero; \<^verbatim>\<open>xs.slice(-n)\<close> keeps the last \<open>n\<close> elements, all of them
  when there are fewer.
\<close>

definition truthy :: "string option \<Rightarrow> bool" where
  "truthy x = (case x of None \<Rightarrow> False | Some t \<Rightarrow> t \<noteq> [])"

definition or_null :: "string option \<Rightarrow> string option" where
  "or_null x = (if truthy x then x else None)"

definition or_str :: "string option \<Rightarrow> string \<Rightarrow> string" where
  "or_str x d = (case x of None \<Rightarrow> d | Some t \<Rightarrow> if t = [] then d else t)"

definition or_zero :: "int option \<Rightarrow> int" where
  "or_zero x = (case x of None \<Rightarrow> 0 | Some n \<Rightarrow> n)"

definition or_empty :: "'a list option \<Rightarrow> 'a list" where
  "or_empty x = (case x of None \<Rightarrow> [] | Some xs \<Rightarrow> xs)"

definition slice_last :: "nat \<Rightarrow> 'a list \<Rightarrow> 'a list" where
  "slice_last n xs = drop (length xs - n) xs"

text \<open>The message of the error that reaches the \<^verbatim>\<open>catch\<close> block of a request action.\<close>

definition caught_message :: "thrown \<Rightarrow> string \<Rightarrow> string" where
  "caught_message t d = (case t of Error_obj m \<Rightarrow> m | Non_error \<Rightarrow> d)"

subsection \<open>State and trace helpers\<close>

definition upd :: "(store \<Rightarrow> store) \<Rightarrow> world \<Rightarrow> world" where
  "upd f w = w\<lparr>store := f (store w)\<rparr>"

definition emit :: "effect \<Rightarrow> world \<Rightarrow> world" where
  "emit e w = w\<lparr>trace := trace w @ [e]\<rparr>"

definition initial_store :: store where
  "initial_store = \<lparr>sessionId = None, isConnected = False, connectionError = None,
     currentStage = ''initializing'', stageDescription = [], progressPercentage = 0,
     conversationHistory = [], userRequirement = None, lyricsVersions = [], debugLogs = [],
     showDebugPanel = False, sessionResult = None, isLoading = False, error = None,
     eventSource = None\<rparr>"

definition initial_world :: world where
  "initial_world = \<lparr>store = initial_store, trace = [], next_es = 0\<rparr>"

text \<open>The event sources that have been created and not closed, oldest first.\<close>

definition open_after :: "es_handle list \<Rightarrow> effect \<Rightarrow> es_handle list" where
  "open_after hs e = (case e of
      Api_createEventSource sid h \<Rightarrow> hs @ [h]
    | Es_close h \<Rightarrow> removeAll h hs
    | _ \<Rightarrow> hs)"

definition open_es :: "effect list \<Rightarrow> es_handle list" where
  "open_es tr = foldl open_after [] tr"

subsection \<open>Synchronous actions\<close>

definition disconnectFromStream :: "world \<Rightarrow> world" where
  "disconnectFromStream w = (case eventSource (store w) of
      None \<Rightarrow> w
    | Some h \<Rightarrow> upd (\<lambda>s. s\<lparr>eventSource := None, isConnected := False\<rparr>) (emit (Es_close h) w))"

text \<open>
  \<^verbatim>\<open>updateSessionState(state: Partial<SessionState>)\<close> merges the keys of a
  \<^verbatim>\<open>SessionState\<close> (\<^verbatim>\<open>session_id\<close>, \<^verbatim>\<open>current_stage\<close>, ...) into the state object. None of
  them is a field of the store, so every field of the store keeps its value.
\<close>

definition updateSessionState :: "session_state \<Rightarrow> store \<Rightarrow> store" where
  "updateSessionState patch s = s"

definition addConversationTurn :: "conversation_turn \<Rightarrow> store \<Rightarrow> store" where
  "addConversationTurn turn s = s\<lparr>conversationHistory := conversationHistory s @ [turn]\<rparr>"

definition addDebugLog :: "debug_log \<Rightarrow> store \<Rightarrow> store" where
  "addDebugLog log s = s\<lparr>debugLogs := slice_last 50 (debugLogs s @ [log])\<rparr>"

definition toggleDebugPanel :: "store \<Rightarrow> store" where
  "toggleDebugPanel s = s\<lparr>showDebugPanel := \<not> showDebugPanel s\<rparr>"

definition setError :: "string option \<Rightarrow> store \<Rightarrow> store" where
  "setError e s = s\<lparr>error := e\<rparr>"

definition clearSession :: "world \<Rightarrow> world" where
  "clearSession w = upd (\<lambda>s. s\<lparr>sessionId := None, isConnected := False, connectionError := None,
      currentStage := ''initializing'', stageDescription := [], progressPercentage := 0,
      conversationHistory := [], userRequirement := None, lyricsVersions := [], debugLogs := [],
      sessionResult := None, error := None, eventSource := None\<rparr>) (disconnectFromStream w)"

subsection \<open>Request actions, split at their await\<close>

definition sendMessage_begin :: "string \<Rightarrow> world \<Rightarrow> world \<times> task option" where
  "sendMessage_begin msg w = (case sessionId (store w) of
      None \<Rightarrow> (w, None)
    | Some sid \<Rightarrow>
        if sid = [] then (w, None)
        else (emit (Api_sendMessage sid msg) (upd (\<lambda>s. s\<lparr>isLoading := True\<rparr>) w),
              Some Await_sendMessage))"

definition sendMessage_resume :: "unit api_outcome \<Rightarrow> world \<Rightarrow> world" where
  "sendMessage_resume out w = (case out of
      Resolved r \<Rightarrow>
        if success r then upd (\<lambda>s. s\<lparr>isLoading := False\<rparr>) w
        else upd (\<lambda>s. s\<lparr>error := Some (or_str (error_message r) SEND_FAILED),
                        isLoading := False\<rparr>) w
    | Rejected t \<Rightarrow>
        upd (\<lambda>s. s\<lparr>error := Some (caught_message t SEND_FAILED), isLoading := False\<rparr>) w)"

definition reviewLyrics_begin :: "int \<Rightarrow> bool \<Rightarrow> string option \<Rightarrow> world \<Rightarrow> world \<times> task option" where
  "reviewLyrics_begin v a feedback w = (case sessionId (store w) of
      None \<Rightarrow> (w, None)
    | Some sid \<Rightarrow>
        if sid = [] then (w, None)
        else (emit (Api_reviewLyrics sid v a feedback) (upd (\<lambda>s. s\<lparr>isLoading := True\<rparr>) w),
              Some (Await_reviewLyrics v a feedback)))"

definition review_entry :: "int \<Rightarrow> bool \<Rightarrow> string option \<Rightarrow> lyrics_version \<Rightarrow> lyrics_version" where
  "review_entry v a feedback lyrics =
     (if version lyrics = v then lyrics\<lparr>approved := a, user_feedback := or_null feedback\<rparr>
      else lyrics)"

definition reviewLyrics_resume ::
    "int \<Rightarrow> bool \<Rightarrow> string option \<Rightarrow> unit api_outcome \<Rightarrow> world \<Rightarrow> world" where
  "reviewLyrics_resume v a feedback out w = (case out of
      Resolved r \<Rightarrow>
        if success r
        then upd (\<lambda>s. s\<lparr>lyricsVersions := map (review_entry v a feedback) (lyricsVersions s),
                         isLoading := False\<rparr>) w
        else upd (\<lambda>s. s\<lparr>error := Some (or_str (error_message r) REVIEW_FAILED),
                        isLoading := False\<rparr>) w
    | Rejected t \<Rightarrow>
        upd (\<lambda>s. s\<lparr>error := Some (caught_message t REVIEW_FAILED), isLoading := False\<rparr>) w)"

definition fetchSessionResult_begin :: "world \<Rightarrow> world \<times> task option" where
  "fetchSessionResult_begin w = (case sessionId (store w) of
      None \<Rightarrow> (w, None)
    | Some sid \<Rightarrow>
        if sid = [] then (w, None)
        else (emit (Api_getSessionResult sid) w, Some Await_getSessionResult))"

definition fetchSessionResult_resume :: "session_result api_outcome \<Rightarrow> world \<Rightarrow> world" where
  "fetchSessionResult_resume out w = (case out of
      Resolved r \<Rightarrow>
        (case data r of
           Some d \<Rightarrow> if success r then upd (\<lambda>s. s\<lparr>sessionResult := Some d\<rparr>) w else w
         | None \<Rightarrow> w)
    | Rejected t \<Rightarrow> w)"

subsection \<open>connectToStream\<close>

text \<open>
  Up to the \<^verbatim>\<open>await\<close>: the guard on the session id, closing an event source the store still
  holds, and the request of the snapshot. The continuation keeps the \<^verbatim>\<open>sessionId\<close> it read.
\<close>

definition connectToStream_begin :: "world \<Rightarrow> world \<times> task option" where
  "connectToStream_begin w = (case sessionId (store w) of
      None \<Rightarrow> (w, None)
    | Some sid \<Rightarrow>
        if sid = [] then (w, None)
        else
          let w1 = (case eventSource (store w) of
                      None \<Rightarrow> w
                    | Some h \<Rightarrow> upd (\<lambda>s. s\<lparr>eventSource := None\<rparr>) (emit (Es_close h) w))
          in (emit (Api_getSessionState sid) w1, Some (Await_getSessionState sid)))"

definition hydrate :: "session_state \<Rightarrow> store \<Rightarrow> store" where
  "hydrate st s = s\<lparr>currentStage := current_stage st,
      stageDescription := or_str (stage_description st) [],
      progressPercentage := or_zero (progress_percentage st),
      conversationHistory := or_empty (conversation_history st),
      userRequirement := user_requirement st,
      lyricsVersions := or_empty (lyrics_versions st),
      debugLogs := or_empty (debug_logs st)\<rparr>"

text \<open>
  After the \<^verbatim>\<open>await\<close>: \<open>out\<close> is what \<^verbatim>\<open>getSessionState\<close> settled to, and \<open>es_throws\<close>
  says whether \<^verbatim>\<open>createEventSource\<close> throws. A new event source gets the next free handle.
\<close>

definition connectToStream_resume :: "session_id \<Rightarrow> session_state api_outcome \<Rightarrow> bool \<Rightarrow> world \<Rightarrow> world" where
  "connectToStream_resume sid out es_throws w = (case out of
      Rejected t \<Rightarrow> upd (\<lambda>s. s\<lparr>connectionError := Some SSE_FAILED\<rparr>) w
    | Resolved r \<Rightarrow>
        let w1 = (case data r of
                    Some st \<Rightarrow> if success r then upd (hydrate st) w else w
                  | None \<Rightarrow> w)
        in if es_throws then upd (\<lambda>s. s\<lparr>connectionError := Some SSE_FAILED\<rparr>) w1
           else upd (\<lambda>s. s\<lparr>eventSource := Some (next_es w1)\<rparr>)
                  (emit (Api_createEventSource sid (next_es w1))
                     (w1\<lparr>next_es := Suc (next_es w1)\<rparr>)))"

subsection \<open>startSession\<close>

definition startSession_begin :: "string \<Rightarrow> world \<Rightarrow> world \<times> task option" where
  "startSession_begin cfg w =
     (emit (Api_startSession cfg) (upd (\<lambda>s. s\<lparr>isLoading := True, error := None\<rparr>) w),
      Some Await_startSession)"

definition startSession_resume :: "session_data api_outcome \<Rightarrow> world \<Rightarrow> world \<times> task option" where
  "startSession_resume out w = (case out of
      Resolved r \<Rightarrow>
        (case data r of
           Some d \<Rightarrow>
             if success r
             then connectToStream_begin
                    (upd (\<lambda>s. s\<lparr>sessionId := Some (session_id d), currentStage := ''initializing'',
                        stageDescription := SESSION_CREATED, progressPercentage := 0,
                        isLoading := False\<rparr>) w)
             else (upd (\<lambda>s. s\<lparr>error := Some (or_str (error_message r) START_FAILED),
                             isLoading := False\<rparr>) w, None)
         | None \<Rightarrow>
             (upd (\<lambda>s. s\<lparr>error := Some (or_str (error_message r) START_FAILED),
                        isLoading := False\<rparr>) w, None))
    | Rejected t \<Rightarrow>
        (upd (\<lambda>s. s\<lparr>error := Some (caught_message t START_FAILED), isLoading := False\<rparr>) w, None))"

subsection \<open>The callbacks registered on an event source\<close>

text \<open>
  Each listener starts with \<^verbatim>\<open>JSON.parse(event.data)\<close>; its argument here is the parsed
  payload, \<open>None\<close> when parsing throws, in which case the listener ends before any
  \<^verbatim>\<open>set\<close>. \<open>fire\<close> runs one callback; which callbacks run for an incoming event is
  given by \<open>callbacks_for\<close> below.
\<close>

record state_update =
  stage :: string
  description :: string
  progress :: int

datatype es_callback =
    On_open
  | On_error
  | On_connected
  | On_chat_message "conversation_turn option"
  | On_state_update "state_update option"
  | On_debug_log "debug_log option"
  | On_error_event "string option option"
  | On_complete "unit option"

definition on_open :: "store \<Rightarrow> store" where
  "on_open s = s\<lparr>isConnected := True, connectionError := None\<rparr>"

definition on_error :: "store \<Rightarrow> store" where
  "on_error s = s\<lparr>isConnected := False, connectionError := Some SSE_FAILED\<rparr>"

definition on_chat_message :: "conversation_turn option \<Rightarrow> store \<Rightarrow> store" where
  "on_chat_message ev s = (case ev of None \<Rightarrow> s | Some turn \<Rightarrow> addConversationTurn turn s)"

definition on_state_update :: "state_update option \<Rightarrow> store \<Rightarrow> store" where
  "on_state_update ev s = (case ev of
      None \<Rightarrow> s
    | Some d \<Rightarrow> s\<lparr>currentStage := stage d, stageDescription := description d,
                  progressPercentage := progress d\<rparr>)"

definition on_debug_log :: "debug_log option \<Rightarrow> store \<Rightarrow> store" where
  "on_debug_log ev s = (case ev of None \<Rightarrow> s | Some log \<Rightarrow> addDebugLog log s)"

definition on_error_event :: "string option option \<Rightarrow> store \<Rightarrow> store" where
  "on_error_event ev s = (case ev of None \<Rightarrow> s | Some e \<Rightarrow> s\<lparr>error := e\<rparr>)"

definition on_complete :: "unit option \<Rightarrow> world \<Rightarrow> world \<times> task option" where
  "on_complete ev w = (case ev of None \<Rightarrow> (w, None) | Some u \<Rightarrow> fetchSessionResult_begin w)"

definition fire :: "es_callback \<Rightarrow> world \<Rightarrow> world \<times> task option" where
  "fire cb w = (case cb of
      On_open \<Rightarrow> (upd on_open w, None)
    | On_error \<Rightarrow> (upd on_error w, None)
    | On_connected \<Rightarrow> (w, None)
    | On_chat_message ev \<Rightarrow> (upd (on_chat_message ev) w, None)
    | On_state_update ev \<Rightarrow> (upd (on_state_update ev) w, None)
    | On_debug_log ev \<Rightarrow> (upd (on_debug_log ev) w, None)
    | On_error_event ev \<Rightarrow> (upd (on_error_event ev) w, None)
    | On_complete ev \<Rightarrow> on_complete ev w)"

subsection \<open>The store under interleaving\<close>

text \<open>
  JavaScript runs one piece of code at a time, but between the \<open>begin\<close> and the \<open>resume\<close> of
  an action anything else may run: another action, the continuation of another request, a
  callback of an open event source. A configuration is the world together with the suspended
  actions; a step is a call of an action, the settling of a pending request, or a callback of an
  event source that is open. \<^verbatim>\<open>Set_sessionId\<close> is the
  \<^verbatim>\<open>useSessionStore.setState({ sessionId })\<close> of the chat page.
\<close>

record config =
  world :: world
  pending :: "task list"

datatype settled =
    Got_startSession "session_data api_outcome"
  | Got_sendMessage "unit api_outcome"
  | Got_reviewLyrics "unit api_outcome"
  | Got_getSessionState "session_state api_outcome" bool
  | Got_getSessionResult "session_result api_outcome"

datatype action =
    Call_startSession string
  | Call_sendMessage string
  | Call_reviewLyrics int bool "string option"
  | Call_connectToStream
  | Call_disconnectFromStream
  | Call_updateSessionState session_state
  | Call_addConversationTurn conversation_turn
  | Call_addDebugLog debug_log
  | Call_toggleDebugPanel
  | Call_setError "string option"
  | Call_clearSession
  | Call_fetchSessionResult
  | Set_sessionId session_id
  | Settle nat settled
  | Es_fire es_handle es_callback

definition spawn :: "task list \<Rightarrow> world \<times> task option \<Rightarrow> config" where
  "spawn ts r = \<lparr>world = fst r, pending = ts @ (case snd r of None \<Rightarrow> [] | Some t \<Rightarrow> [t])\<rparr>"

fun continue :: "task \<Rightarrow> settled \<Rightarrow> world \<Rightarrow> (world \<times> task option) option" where
  "continue Await_startSession (Got_startSession out) w = Some (startSession_resume out w)"
| "continue Await_sendMessage (Got_sendMessage out) w = Some (sendMessage_resume out w, None)"
| "continue (Await_reviewLyrics v a feedback) (Got_reviewLyrics out) w =
     Some (reviewLyrics_resume v a feedback out w, None)"
| "continue (Await_getSessionState sid) (Got_getSessionState out es_throws) w =
     Some (connectToStream_resume sid out es_throws w, None)"
| "continue Await_getSessionResult (Got_getSessionResult out) w =
     Some (fetchSessionResult_resume out w, None)"
| "continue _ _ _ = None"

fun step :: "config \<Rightarrow> action \<Rightarrow> config option" where
  "step c (Call_startSession cfg) = Some (spawn (pending c) (startSession_begin cfg (world c)))"
| "step c (Call_sendMessage msg) = Some (spawn (pending c) (sendMessage_begin msg (world c)))"
| "step c (Call_reviewLyrics v a feedback) =
     Some (spawn (pending c) (reviewLyrics_begin v a feedback (world c)))"
| "step c Call_connectToStream = Some (spawn (pending c) (connectToStream_begin (world c)))"
| "step c Call_disconnectFromStream = Some (spawn (pending c) (disconnectFromStream (world c), None))"
| "step c (Call_updateSessionState patch) =
     Some (spawn (pending c) (upd (updateSessionState patch) (world c), None))"
| "step c (Call_addConversationTurn turn) =
     Some (spawn (pending c) (upd (addConversationTurn turn) (world c), None))"
| "step c (Call_addDebugLog log) = Some (spawn (pending c) (upd (addDebugLog log) (world c), None))"
| "step c Call_toggleDebugPanel = Some (spawn (pending c) (upd toggleDebugPanel (world c), None))"
| "step c (Call_setError e) = Some (spawn (pending c) (upd (setError e) (world c), None))"
| "step c Call_clearSession = Some (spawn (pending c) (clearSession (world c), None))"
| "step c Call_fetchSessionResult = Some (spawn (pending c) (fetchSessionResult_begin (world c)))"
| "step c (Set_sessionId sid) =
     Some (spawn (pending c) (upd (\<lambda>s. s\<lparr>sessionId := Some sid\<rparr>) (world c), None))"
| "step c (Settle i r) =
     (if i < length (pending c)
      then map_option (spawn (take i (pending c) @ drop (Suc i) (pending c)))
             (continue (pending c ! i) r (world c))
      else None)"
| "step c (Es_fire h cb) =
     (if h \<in> set (open_es (trace (world c))) then Some (spawn (pending c) (fire cb (world c)))
      else None)"

fun run :: "config \<Rightarrow> action list \<Rightarrow> config option" where
  "run c [] = Some c"
| "run c (a # as) = (case step c a of None \<Rightarrow> None | Some c' \<Rightarrow> run c' as)"

definition initial_config :: config where
  "initial_config = \<lparr>world = initial_world, pending = []\<rparr>"

subsection \<open>Delivery of an event\<close>

text \<open>
  An event source is an event target: for an incoming event it invokes every callback
  registered for the type of the event, in the order of registration. \<open>connectToStream\<close>
  registers one callback for each type but \<^verbatim>\<open>error\<close>, for which it registers two:
  \<^verbatim>\<open>eventSource.onerror\<close> and, later, the \<^verbatim>\<open>addEventListener('error', ...)\<close> listener. So
  an event of type \<^verbatim>\<open>error\<close> runs both, whether it is the error delta the server sends
  (its data parses to a payload) or the report of a failed connection (it has no data, so the
  listener's \<^verbatim>\<open>JSON.parse\<close> throws: payload \<open>None\<close>).
\<close>

datatype es_event =
    Open_event
  | Error_event "string option option"
  | Connected_event
  | Chat_message_event "conversation_turn option"
  | State_update_event "state_update option"
  | Debug_log_event "debug_log option"
  | Complete_event "unit option"

definition callbacks_for :: "es_event \<Rightarrow> es_callback list" where
  "callbacks_for ev = (case ev of
      Open_event \<Rightarrow> [On_open]
    | Error_event payload \<Rightarrow> [On_error, On_error_event payload]
    | Connected_event \<Rightarrow> [On_connected]
    | Chat_message_event payload \<Rightarrow> [On_chat_message payload]
    | State_update_event payload \<Rightarrow> [On_state_update payload]
    | Debug_log_event payload \<Rightarrow> [On_debug_log payload]
    | Complete_event payload \<Rightarrow> [On_complete payload])"

text \<open>The steps of the store when event source \<open>h\<close> delivers an event.\<close>

definition deliver :: "es_handle \<Rightarrow> es_event \<Rightarrow> action list" where
  "deliver h ev = map (Es_fire h) (callbacks_for ev)"

text \<open>An action run without anything in between: \<open>begin\<close>, then \<open>resume\<close> if it suspended.\<close>

definition connectToStream_run :: "session_state api_outcome \<Rightarrow> bool \<Rightarrow> world \<Rightarrow> world" where
  "connectToStream_run out es_throws w = (case connectToStream_begin w of
      (w1, Some (Await_getSessionState sid)) \<Rightarrow> connectToStream_resume sid out es_throws w1
    | (w1, _) \<Rightarrow> w1)"

definition reviewLyrics_run ::
    "int \<Rightarrow> bool \<Rightarrow> string option \<Rightarrow> unit api_outcome \<Rightarrow> world \<Rightarrow> world" where
  "reviewLyrics_run v a feedback out w = (case reviewLyrics_begin v a feedback w of
      (w1, Some (Await_reviewLyrics v' a' feedback')) \<Rightarrow> reviewLyrics_resume v' a' feedback' out w1
    | (w1, _) \<Rightarrow> w1)"

definition sendMessage_run :: "string \<Rightarrow> unit api_outcome \<Rightarrow> world \<Rightarrow> world" where
  "sendMessage_run msg out w = (case sendMessage_begin msg w of
      (w1, Some Await_sendMessage) \<Rightarrow> sendMessage_resume out w1
    | (w1, _) \<Rightarrow> w1)"

subsection \<open>Reading a trace\<close>

text \<open>
  What an action appended to the trace, the effects with which \<open>connectToStream\<close> closes the
  event source the store holds, and the order the subscription protocol asks for: an event
  source for a session is created only after a snapshot of that session has been requested.
\<close>

definition new_effects :: "world \<Rightarrow> world \<Rightarrow> effect list" where
  "new_effects w w' = drop (length (trace w)) (trace w')"

definition closing :: "world \<Rightarrow> effect list" where
  "closing w = (case eventSource (store w) of None \<Rightarrow> [] | Some h \<Rightarrow> [Es_close h])"

fun is_resolved :: "'d api_outcome \<Rightarrow> bool" where
  "is_resolved (Resolved r) = True"
| "is_resolved (Rejected t) = False"

fun fetch_before_open :: "session_id list \<Rightarrow> effect list \<Rightarrow> bool" where
  "fetch_before_open fetched [] = True"
| "fetch_before_open fetched (Api_getSessionState sid # es) = fetch_before_open (sid # fetched) es"
| "fetch_before_open fetched (Api_createEventSource sid h # es) =
     (sid \<in> set fetched \<and> fetch_before_open fetched es)"
| "fetch_before_open fetched (e # es) = fetch_before_open fetched es"

subsection \<open>Predicates used in the properties\<close>

definition no_create :: "effect list \<Rightarrow> bool" where
  "no_create es = (\<forall>sid h. Api_createEventSource sid h \<notin> set es)"

text \<open>A continuation of \<open>connectToStream\<close> is pending only for a snapshot that was requested.\<close>

definition awaits_fetched :: "effect list \<Rightarrow> task \<Rightarrow> bool" where
  "awaits_fetched tr t =
     (case t of Await_getSessionState sid \<Rightarrow> Api_getSessionState sid \<in> set tr | _ \<Rightarrow> True)"

definition protocol_inv :: "config \<Rightarrow> bool" where
  "protocol_inv c = (fetch_before_open [] (trace (world c))
     \<and> list_all (awaits_fetched (trace (world c))) (pending c))"

text \<open>
  The steps that can make \<open>conversationHistory\<close> longer: a turn is appended
  (\<open>addConversationTurn\<close>, which the \<^verbatim>\<open>chat_message\<close> listener calls), or the continuation of
  \<open>connectToStream\<close> replaces the history by the one of the snapshot.
\<close>

fun appends_turn :: "action \<Rightarrow> bool" where
  "appends_turn (Call_addConversationTurn turn) = True"
| "appends_turn (Es_fire h (On_chat_message (Some turn))) = True"
| "appends_turn a = False"

fun hydrates :: "action \<Rightarrow> bool" where
  "hydrates (Settle i (Got_getSessionState (Resolved r) es_throws)) = True"
| "hydrates a = False"

text \<open>The event source the store holds is the only one that is open.\<close>

definition single_subscription :: "world \<Rightarrow> bool" where
  "single_subscription w =
     (open_es (trace w) = (case eventSource (store w) of None \<Rightarrow> [] | Some h \<Rightarrow> [h]))"

subsection \<open>Example data\<close>

definition two_versions :: "lyrics_version list" where
  "two_versions =
     [\<lparr>version = 1, lv_content = ''la la'', approved = True, user_feedback = None,
       created_at = ''t1'', pinyin_annotated = None\<rparr>,
      \<lparr>version = 2, lv_content = ''la la la'', approved = True, user_feedback = Some ''nice'',
       created_at = ''t2'', pinyin_annotated = None\<rparr>]"

definition reviewing_example :: world where
  "reviewing_example =
     \<lparr>store = initial_store\<lparr>sessionId := Some ''s1'', lyricsVersions := two_versions\<rparr>,
      trace = [], next_es = 0\<rparr>"

definition ok_response :: "unit api_outcome" where
  "ok_response = Resolved \<lparr>success = True, data = None, error_message = None\<rparr>"

text \<open>
  A configuration used in the examples below: session \<open>s1\<close>, one open event source with handle
  \<open>0\<close>, nothing pending.
\<close>

definition connected_example :: config where
  "connected_example =
     \<lparr>world = \<lparr>store = initial_store\<lparr>sessionId := Some ''s1'', isConnected := True,
                                        eventSource := Some 0\<rparr>,
               trace = [Api_getSessionState ''s1'', Api_createEventSource ''s1'' 0],
               next_es = 1\<rparr>,
      pending = []\<rparr>"

definition no_snapshot :: "session_state api_outcome" where
  "no_snapshot = Resolved \<lparr>success = False, data = None, error_message = None\<rparr>"

definition hello_turn :: conversation_turn where
  "hello_turn = \<lparr>role = ''user'', content = ''upbeat pop song'', timestamp = ''t0'',
                  metadata = None\<rparr>"

definition one_turn_snapshot :: "session_state api_outcome" where
  "one_turn_snapshot = Resolved \<lparr>success = True,
     data = Some \<lparr>current_stage = ''collecting_requirements'', stage_description = None,
                  progress_percentage = None, conversation_history = Some [hello_turn],
                  user_requirement = None, lyrics_versions = None, debug_logs = None\<rparr>,
     error_message = None\<rparr>"

text \<open>After \<open>connectToStream\<close> has requested the snapshot of session \<open>s1\<close>.\<close>

definition awaiting_snapshot_example :: config where
  "awaiting_snapshot_example =
     \<lparr>world = \<lparr>store = initial_store\<lparr>sessionId := Some ''s1''\<rparr>,
               trace = [Api_getSessionState ''s1''], next_es = 0\<rparr>,
      pending = [Await_getSessionState ''s1'']\<rparr>"

text \<open>After two calls of \<open>connectToStream\<close> that overlapped, both settled.\<close>

definition overlap_example :: config where
  "overlap_example =
     \<lparr>world = \<lparr>store = initial_store\<lparr>sessionId := Some ''s1'', eventSource := Some 1\<rparr>,
               trace = [Api_getSessionState ''s1'', Api_getSessionState ''s1'',
                        Api_createEventSource ''s1'' 0, Api_createEventSource ''s1'' 1],
               next_es = 2\<rparr>,
      pending = []\<rparr>"

section \<open>Properties\<close>

subsection \<open>Auxiliary facts\<close>

lemmas world_simps = upd_def emit_def spawn_def

lemmas example_simps = initial_config_def initial_world_def initial_store_def
  connected_example_def no_snapshot_def open_es_def open_after_def

lemma connected_example_reachable:
  "run initial_config [Set_sessionId ''s1'', Call_connectToStream,
      Settle 0 (Got_getSessionState no_snapshot False), Es_fire 0 On_open] = Some connected_example"
  by (simp add: example_simps world_simps connectToStream_begin_def connectToStream_resume_def
      fire_def on_open_def)

lemma slice_last_absorb: "slice_last n (slice_last n xs @ ys) = slice_last n (xs @ ys)"
proof (cases "length xs \<le> n")
  case True
  then show ?thesis by (simp add: slice_last_def)
next
  case False
  then have "length xs + length ys - (length xs - n + n) + (length xs - n)
      = length xs + length ys - n"
    by arith
  with False show ?thesis by (simp add: slice_last_def)
qed

lemma length_slice_last: "length (slice_last n xs) = min n (length xs)"
  by (simp add: slice_last_def)

lemma debugLogs_addDebugLog: "debugLogs (addDebugLog l s) = slice_last 50 (debugLogs s @ [l])"
  by (simp add: addDebugLog_def)

lemma debugLogs_fold:
  "debugLogs (fold addDebugLog logs s) =
     (if logs = [] then debugLogs s else slice_last 50 (debugLogs s @ logs))"
proof (induction logs arbitrary: s)
  case Nil
  then show ?case by simp
next
  case (Cons l logs)
  show ?case
    by (simp add: Cons.IH debugLogs_addDebugLog slice_last_absorb)
qed

subsection \<open>The state\_update listener\<close>

text \<open>
  C1. Applying the same \<^verbatim>\<open>state_update\<close> payload twice in a row gives the same store as
  applying it once, for every store and every payload: the listener overwrites
  \<open>currentStage\<close>, \<open>stageDescription\<close> and \<open>progressPercentage\<close> with the three values of the
  payload, whatever they were before.
\<close>

theorem state_update_idempotent:
  "on_state_update ev (on_state_update ev s) = on_state_update ev s
   \<and> currentStage (on_state_update (Some d) s) = stage d
   \<and> stageDescription (on_state_update (Some d) s) = description d
   \<and> progressPercentage (on_state_update (Some d) s) = progress d
   \<and> fst (fire (On_state_update ev) (fst (fire (On_state_update ev) w)))
       = fst (fire (On_state_update ev) w)"
  by (simp add: on_state_update_def fire_def upd_def split: option.splits)

subsection \<open>The debug log buffer\<close>

text \<open>
  C3. After any number of \<open>addDebugLog\<close> calls on the initial store, \<open>debugLogs\<close> holds the last
  50 of the logs added (all of them while there are at most 50), in the order they were added,
  and so has length at most 50. The same holds from any store once one log has been added, for
  the logs the store had followed by the added ones. The \<^verbatim>\<open>debug_log\<close> listener adds its log
  with \<open>addDebugLog\<close>.
\<close>

theorem debugLogs_capped:
  "debugLogs (fold addDebugLog logs initial_store) = drop (length logs - 50) logs
   \<and> length (debugLogs (fold addDebugLog logs initial_store)) \<le> 50
   \<and> debugLogs (fold addDebugLog (l # logs) s)
       = drop (length (debugLogs s @ l # logs) - 50) (debugLogs s @ l # logs)
   \<and> length (debugLogs (fold addDebugLog (l # logs) s)) \<le> 50
   \<and> on_debug_log (Some l) s = addDebugLog l s"
proof -
  have init: "debugLogs initial_store = []" by (simp add: initial_store_def)
  have a: "debugLogs (fold addDebugLog logs initial_store) = slice_last 50 logs"
    by (simp add: debugLogs_fold init slice_last_def)
  have b: "debugLogs (fold addDebugLog (l # logs) s) = slice_last 50 (debugLogs s @ l # logs)"
    using debugLogs_fold [of "l # logs" s] by simp
  have c: "on_debug_log (Some l) s = addDebugLog l s" by (simp add: on_debug_log_def)
  have len: "length (slice_last 50 xs) \<le> 50" for xs :: "debug_log list"
    by (simp add: length_slice_last)
  have a': "debugLogs (fold addDebugLog logs initial_store) = drop (length logs - 50) logs"
    using a by (simp add: slice_last_def)
  have b': "debugLogs (fold addDebugLog (l # logs) s)
      = drop (length (debugLogs s @ l # logs) - 50) (debugLogs s @ l # logs)"
    using b by (simp only: slice_last_def)
  have la: "length (debugLogs (fold addDebugLog logs initial_store)) \<le> 50"
    by (simp only: a len)
  have lb: "length (debugLogs (fold addDebugLog (l # logs) s)) \<le> 50"
    by (simp only: b len)
  from a' la b' lb c show ?thesis by blast
qed

subsection \<open>The error delta\<close>

text \<open>
  The \<^verbatim>\<open>error\<close> listener by itself does what an error delta is meant to do: the store's
  \<open>error\<close> becomes the payload's \<^verbatim>\<open>error\<close> and nothing else changes.
\<close>

lemma error_listener_sets_only_error:
  assumes "h \<in> set (open_es (trace (world c)))"
  shows "step c (Es_fire h (On_error_event (Some e)))
           = Some (c\<lparr>world := (world c)\<lparr>store := (store (world c))\<lparr>error := e\<rparr>\<rparr>\<rparr>)"
  using assms by (simp add: fire_def on_error_event_def world_simps)

text \<open>
  But the delivery of an error delta runs \<^verbatim>\<open>onerror\<close> before the listener, for every
  configuration and payload: besides \<open>error\<close>, \<open>isConnected\<close> becomes false and
  \<open>connectionError\<close> the connection-failed message. Nothing is closed and nothing else changes.
\<close>

lemma error_delta_delivery:
  assumes "h \<in> set (open_es (trace (world c)))"
  shows "run c (deliver h (Error_event (Some e)))
           = Some (c\<lparr>world := (world c)\<lparr>store := (store (world c))
                      \<lparr>isConnected := False, connectionError := Some SSE_FAILED, error := e\<rparr>\<rparr>\<rparr>)"
  using assms
  by (simp add: deliver_def callbacks_for_def fire_def on_error_def on_error_event_def world_simps)

text \<open>
  The report of a failed connection is an event of the same type without data; its delivery
  leaves the store as \<^verbatim>\<open>onerror\<close> alone does.
\<close>

lemma connection_error_delivery:
  assumes "h \<in> set (open_es (trace (world c)))"
  shows "run c (deliver h (Error_event None)) = step c (Es_fire h On_error)"
  using assms
  by (simp add: deliver_def callbacks_for_def fire_def on_error_def on_error_event_def world_simps)

text \<open>
  C7. An error delta is meant to set the user-visible \<open>error\<close> and nothing else, leaving the
  connection flag as it is. In the connected example, where \<open>isConnected\<close> is true and no
  connection error is recorded, the delivery of the error delta "generation failed" sets
  \<open>error\<close>, and it also sets \<open>isConnected\<close> to false and \<open>connectionError\<close> to the
  connection-failed message, although the event source is still open and still the one the
  store holds.
\<close>

theorem error_delta_flips_connection_flag:
  "run initial_config [Set_sessionId ''s1'', Call_connectToStream,
      Settle 0 (Got_getSessionState no_snapshot False), Es_fire 0 On_open] = Some connected_example
   \<and> isConnected (store (world connected_example)) = True
   \<and> connectionError (store (world connected_example)) = None
   \<and> deliver 0 (Error_event (Some (Some ''generation failed'')))
       = [Es_fire 0 On_error, Es_fire 0 (On_error_event (Some (Some ''generation failed'')))]
   \<and> run connected_example (deliver 0 (Error_event (Some (Some ''generation failed''))))
       = Some (connected_example\<lparr>world := (world connected_example)\<lparr>store :=
           (store (world connected_example))\<lparr>isConnected := False,
              connectionError := Some SSE_FAILED, error := Some ''generation failed''\<rparr>\<rparr>\<rparr>)
   \<and> open_es (trace (world connected_example)) = [0]
   \<and> eventSource (store (world connected_example)) = Some 0"
proof -
  have h: "0 \<in> set (open_es (trace (world connected_example)))"
    by (simp add: example_simps)
  have d: "deliver 0 (Error_event (Some (Some ''generation failed'')))
       = [Es_fire 0 On_error, Es_fire 0 (On_error_event (Some (Some ''generation failed'')))]"
    by (simp add: deliver_def callbacks_for_def)
  have e: "isConnected (store (world connected_example)) = True"
    "connectionError (store (world connected_example)) = None"
    "open_es (trace (world connected_example)) = [0]"
    "eventSource (store (world connected_example)) = Some 0"
    by (simp_all add: example_simps)
  have r: "run connected_example (deliver 0 (Error_event (Some (Some ''generation failed''))))
       = Some (connected_example\<lparr>world := (world connected_example)\<lparr>store :=
           (store (world connected_example))\<lparr>isConnected := False,
              connectionError := Some SSE_FAILED, error := Some ''generation failed''\<rparr>\<rparr>\<rparr>)"
    by (rule error_delta_delivery [OF h])
  note p = connected_example_reachable
  show ?thesis
    by (intro conjI) (fact p e d r)+
qed

subsection \<open>reviewLyrics\<close>

lemma truthy_sessionId: "truthy x \<Longrightarrow> \<exists>sid. x = Some sid \<and> sid \<noteq> []"
  by (cases x) (simp_all add: truthy_def)

lemma reviewLyrics_run_success:
  assumes "truthy (sessionId (store w))" and "success r"
  shows "lyricsVersions (store (reviewLyrics_run v a f (Resolved r) w))
           = map (review_entry v a f) (lyricsVersions (store w))"
proof -
  from assms(1) obtain sid where "sessionId (store w) = Some sid" "sid \<noteq> []"
    using truthy_sessionId by blast
  with assms(2) show ?thesis
    by (simp add: reviewLyrics_run_def reviewLyrics_begin_def reviewLyrics_resume_def world_simps)
qed

text \<open>
  C5. When \<open>reviewLyrics(version, approved, feedback)\<close> is called with a session id and the
  request succeeds, the list of lyrics versions keeps its length, every entry whose version is
  the given one gets the given \<open>approved\<close> and the given feedback (a non-empty feedback is
  stored as it is) with its other fields as before, and every entry with another version is
  exactly what it was. For versions 1 and 2, reviewing version 1 with \<open>approved = false\<close> and
  feedback "too slow" changes those two fields of version 1 and leaves version 2 alone.
\<close>

theorem reviewLyrics_updates_matching_version_only:
  assumes "truthy (sessionId (store w))" and "success r"
  shows "length (lyricsVersions (store (reviewLyrics_run v a f (Resolved r) w)))
           = length (lyricsVersions (store w))
         \<and> (\<forall>i < length (lyricsVersions (store w)).
              lyricsVersions (store (reviewLyrics_run v a f (Resolved r) w)) ! i =
                (if version (lyricsVersions (store w) ! i) = v
                 then (lyricsVersions (store w) ! i)\<lparr>approved := a, user_feedback := or_null f\<rparr>
                 else lyricsVersions (store w) ! i))
         \<and> (\<forall>t. f = Some t \<and> t \<noteq> [] \<longrightarrow> or_null f = Some t)"
  by (simp add: reviewLyrics_run_success [OF assms] review_entry_def or_null_def truthy_def)

theorem reviewLyrics_updates_matching_version_only_witness:
  "truthy (sessionId (store reviewing_example))
   \<and> lyricsVersions (store (reviewLyrics_run 1 False (Some ''too slow'') ok_response reviewing_example)) ! 0
       = (two_versions ! 0)\<lparr>approved := False, user_feedback := Some ''too slow''\<rparr>
   \<and> lyricsVersions (store (reviewLyrics_run 1 False (Some ''too slow'') ok_response reviewing_example)) ! 1
       = two_versions ! 1"
proof -
  have t: "truthy (sessionId (store reviewing_example))"
    by (simp add: reviewing_example_def truthy_def initial_store_def)
  have s: "success \<lparr>success = True, data = (None :: unit option), error_message = None\<rparr>"
    by simp
  have l: "lyricsVersions (store reviewing_example) = two_versions"
    by (simp add: reviewing_example_def initial_store_def)
  note rl = reviewLyrics_updates_matching_version_only [OF t s, of 1 False "Some ''too slow''",
      unfolded l, THEN conjunct2, THEN conjunct1, rule_format]
  have "lyricsVersions (store (reviewLyrics_run 1 False (Some ''too slow'') ok_response reviewing_example)) ! 0
       = (two_versions ! 0)\<lparr>approved := False, user_feedback := Some ''too slow''\<rparr>"
    using rl [of 0] by (simp add: ok_response_def two_versions_def or_null_def truthy_def)
  moreover have "lyricsVersions (store (reviewLyrics_run 1 False (Some ''too slow'') ok_response reviewing_example)) ! 1
       = two_versions ! 1"
    using rl [of 1] by (simp add: ok_response_def two_versions_def)
  ultimately show ?thesis using t by blast
qed

text \<open>
  C10. When \<open>reviewLyrics\<close> succeeds, the \<open>user_feedback\<close> of an entry with the given version
  is the given feedback if that is a non-empty string, and null (\<open>None\<close>) if the feedback is
  omitted or is the empty string: \<^verbatim>\<open>feedback || null\<close>.
\<close>

theorem reviewLyrics_feedback_normalised:
  assumes "truthy (sessionId (store w))" and "success r"
    and "i < length (lyricsVersions (store w))"
    and "version (lyricsVersions (store w) ! i) = v"
  shows "user_feedback (lyricsVersions (store (reviewLyrics_run v a f (Resolved r) w)) ! i)
           = (case f of None \<Rightarrow> None | Some t \<Rightarrow> if t = [] then None else Some t)"
  using assms(3,4)
  by (simp add: reviewLyrics_run_success [OF assms(1,2)] review_entry_def or_null_def truthy_def
      split: option.splits)

theorem reviewLyrics_feedback_normalised_witness:
  "truthy (sessionId (store reviewing_example))
   \<and> (1::nat) < length (lyricsVersions (store reviewing_example))
   \<and> version (lyricsVersions (store reviewing_example) ! 1) = 2
   \<and> user_feedback (lyricsVersions (store reviewing_example) ! 1) = Some ''nice''
   \<and> user_feedback (lyricsVersions (store (reviewLyrics_run 2 True (Some []) ok_response reviewing_example)) ! 1)
       = None"
proof -
  have t: "truthy (sessionId (store reviewing_example))"
    by (simp add: reviewing_example_def truthy_def initial_store_def)
  have s: "success \<lparr>success = True, data = (None :: unit option), error_message = None\<rparr>"
    by simp
  have l: "lyricsVersions (store reviewing_example) = two_versions"
    by (simp add: reviewing_example_def initial_store_def)
  have i: "1 < length (lyricsVersions (store reviewing_example))"
    by (simp add: l two_versions_def)
  have v: "version (lyricsVersions (store reviewing_example) ! 1) = 2"
    by (simp add: l two_versions_def)
  have u: "user_feedback (lyricsVersions (store reviewing_example) ! 1) = Some ''nice''"
    by (simp add: l two_versions_def)
  from reviewLyrics_feedback_normalised [OF t s i v, of True "Some []"] t i v u
  show ?thesis by (simp add: ok_response_def)
qed

subsection \<open>Actions without a session\<close>

text \<open>
  C9. While \<open>sessionId\<close> is null, calling \<open>sendMessage\<close>, \<open>reviewLyrics\<close>, \<open>connectToStream\<close>
  or \<open>fetchSessionResult\<close> changes nothing: the store, the trace of requests and the pending
  requests are the same afterwards, and the action does not suspend.
\<close>

theorem null_session_is_noop:
  assumes "sessionId (store (world c)) = None"
  shows "step c (Call_sendMessage msg) = Some c
       \<and> step c (Call_reviewLyrics v a f) = Some c
       \<and> step c Call_connectToStream = Some c
       \<and> step c Call_fetchSessionResult = Some c
       \<and> sendMessage_begin msg (world c) = (world c, None)
       \<and> reviewLyrics_begin v a f (world c) = (world c, None)
       \<and> connectToStream_begin (world c) = (world c, None)
       \<and> fetchSessionResult_begin (world c) = (world c, None)"
  using assms
  by (simp add: sendMessage_begin_def reviewLyrics_begin_def connectToStream_begin_def
      fetchSessionResult_begin_def spawn_def)

theorem null_session_is_noop_witness:
  "sessionId (store (world initial_config)) = None
   \<and> step initial_config (Call_sendMessage ''hello'') = Some initial_config
   \<and> step initial_config (Call_reviewLyrics 1 True None) = Some initial_config
   \<and> step initial_config Call_connectToStream = Some initial_config
   \<and> step initial_config Call_fetchSessionResult = Some initial_config"
proof -
  have n: "sessionId (store (world initial_config)) = None"
    by (simp add: initial_config_def initial_world_def initial_store_def)
  from null_session_is_noop [OF n] n show ?thesis by blast
qed

subsection \<open>What a step appends to the trace\<close>

lemma trace_upd [simp]: "trace (upd f w) = trace w"
  by (simp add: upd_def)

lemma trace_emit [simp]: "trace (emit e w) = trace w @ [e]"
  by (simp add: emit_def)

lemma fetch_before_open_append:
  "fetch_before_open F (xs @ ys) =
     (fetch_before_open F xs \<and>
      fetch_before_open ([sid. Api_getSessionState sid \<leftarrow> rev xs] @ F) ys)"
  by (induction F xs rule: fetch_before_open.induct) auto

lemma fetch_before_open_creates:
  "(\<And>sid h. Api_createEventSource sid h \<in> set es \<Longrightarrow> sid \<in> set F) \<Longrightarrow> fetch_before_open F es"
  by (induction F es rule: fetch_before_open.induct) auto

lemma trace_connectToStream_begin:
  "trace (fst (connectToStream_begin w)) =
     trace w @ (if truthy (sessionId (store w))
                then closing w @ [Api_getSessionState (the (sessionId (store w)))] else [])"
  by (simp add: connectToStream_begin_def closing_def truthy_def world_simps
      split: option.splits)

lemma snd_connectToStream_begin:
  "snd (connectToStream_begin w) =
     (if truthy (sessionId (store w)) then Some (Await_getSessionState (the (sessionId (store w))))
      else None)"
  by (simp add: connectToStream_begin_def truthy_def Let_def split: option.splits)

lemma next_es_connectToStream_begin: "next_es (fst (connectToStream_begin w)) = next_es w"
  by (simp add: connectToStream_begin_def world_simps Let_def split: option.splits)

lemma trace_connectToStream_resume:
  "trace (connectToStream_resume sid out thr w) =
     trace w @ (if is_resolved out \<and> \<not> thr then [Api_createEventSource sid (next_es w)] else [])"
  by (cases out) (simp_all add: connectToStream_resume_def world_simps Let_def split: option.splits)

lemma trace_sendMessage_begin:
  "\<exists>es. trace (fst (sendMessage_begin msg w)) = trace w @ es \<and> no_create es"
  by (simp add: sendMessage_begin_def no_create_def split: option.splits)

lemma task_sendMessage_begin: "snd (sendMessage_begin msg w) \<noteq> Some (Await_getSessionState sid)"
  by (simp add: sendMessage_begin_def split: option.splits)

lemma trace_reviewLyrics_begin:
  "\<exists>es. trace (fst (reviewLyrics_begin v a f w)) = trace w @ es \<and> no_create es"
  by (simp add: reviewLyrics_begin_def no_create_def split: option.splits)

lemma task_reviewLyrics_begin: "snd (reviewLyrics_begin v a f w) \<noteq> Some (Await_getSessionState sid)"
  by (simp add: reviewLyrics_begin_def split: option.splits)

lemma trace_fetchSessionResult_begin:
  "\<exists>es. trace (fst (fetchSessionResult_begin w)) = trace w @ es \<and> no_create es"
  by (simp add: fetchSessionResult_begin_def no_create_def split: option.splits)

lemma task_fetchSessionResult_begin: "snd (fetchSessionResult_begin w) \<noteq> Some (Await_getSessionState sid)"
  by (simp add: fetchSessionResult_begin_def split: option.splits)

lemma trace_startSession_begin:
  "\<exists>es. trace (fst (startSession_begin cfg w)) = trace w @ es \<and> no_create es"
  by (simp add: startSession_begin_def no_create_def)

lemma task_startSession_begin: "snd (startSession_begin cfg w) \<noteq> Some (Await_getSessionState sid)"
  by (simp add: startSession_begin_def)

lemma connectToStream_begin_fetches:
  "\<exists>es. trace (fst (connectToStream_begin w)) = trace w @ es \<and> no_create es
     \<and> (\<forall>sid. snd (connectToStream_begin w) = Some (Await_getSessionState sid)
            \<longrightarrow> Api_getSessionState sid \<in> set es)"
  by (simp add: trace_connectToStream_begin snd_connectToStream_begin no_create_def closing_def
      truthy_def split: option.splits)

lemma trace_disconnectFromStream:
  "\<exists>es. trace (disconnectFromStream w) = trace w @ es \<and> no_create es"
  by (simp add: disconnectFromStream_def no_create_def split: option.splits)

lemma trace_clearSession:
  "\<exists>es. trace (clearSession w) = trace w @ es \<and> no_create es"
  using trace_disconnectFromStream [of w] by (simp add: clearSession_def)

lemma trace_sendMessage_resume [simp]: "trace (sendMessage_resume out w) = trace w"
  by (simp add: sendMessage_resume_def split: api_outcome.splits)

lemma trace_reviewLyrics_resume [simp]: "trace (reviewLyrics_resume v a f out w) = trace w"
  by (simp add: reviewLyrics_resume_def split: api_outcome.splits)

lemma trace_fetchSessionResult_resume [simp]: "trace (fetchSessionResult_resume out w) = trace w"
  by (simp add: fetchSessionResult_resume_def split: api_outcome.splits option.splits)

lemma startSession_resume_fetches:
  "\<exists>es. trace (fst (startSession_resume out w)) = trace w @ es \<and> no_create es
     \<and> (\<forall>sid. snd (startSession_resume out w) = Some (Await_getSessionState sid)
            \<longrightarrow> Api_getSessionState sid \<in> set es)"
proof (cases out)
  case (Resolved r)
  show ?thesis
  proof (cases "success r \<and> data r \<noteq> None")
    case True
    then obtain d where d: "data r = Some d" and s: "success r" by auto
    from connectToStream_begin_fetches
      [of "upd (\<lambda>s. s\<lparr>sessionId := Some (session_id d), currentStage := ''initializing'',
                        stageDescription := SESSION_CREATED, progressPercentage := 0,
                        isLoading := False\<rparr>) w"]
    show ?thesis by (simp add: startSession_resume_def Resolved d s)
  next
    case False
    then show ?thesis
      by (auto simp: startSession_resume_def Resolved no_create_def split: option.splits)
  qed
next
  case (Rejected t)
  then show ?thesis by (simp add: startSession_resume_def no_create_def)
qed

lemma fire_quiet:
  "\<exists>es. trace (fst (fire cb w)) = trace w @ es \<and> no_create es
     \<and> snd (fire cb w) \<noteq> Some (Await_getSessionState sid)"
proof (cases cb)
  case (On_complete ev)
  then show ?thesis
    using trace_fetchSessionResult_begin [of w] task_fetchSessionResult_begin [of w sid]
    by (cases ev) (simp_all add: fire_def on_complete_def no_create_def)
qed (simp_all add: fire_def no_create_def)

lemma continue_trace:
  assumes "continue t r w = Some (w', t')"
  shows "\<exists>es. trace w' = trace w @ es
     \<and> (\<forall>sid h. Api_createEventSource sid h \<in> set es \<longrightarrow> t = Await_getSessionState sid)
     \<and> (\<forall>sid. t' = Some (Await_getSessionState sid) \<longrightarrow> Api_getSessionState sid \<in> set es)"
proof (cases t)
  case Await_startSession
  with assms obtain out where r: "r = Got_startSession out" by (cases r) simp_all
  from assms have "w' = fst (startSession_resume out w)" "t' = snd (startSession_resume out w)"
    by (simp_all add: Await_startSession r)
  with startSession_resume_fetches [of out w] show ?thesis
    by (auto simp: no_create_def)
next
  case Await_sendMessage
  with assms show ?thesis by (cases r) auto
next
  case (Await_reviewLyrics v a f)
  with assms show ?thesis by (cases r) auto
next
  case (Await_getSessionState sid)
  with assms show ?thesis by (cases r) (auto simp: trace_connectToStream_resume)
next
  case Await_getSessionResult
  with assms show ?thesis by (cases r) auto
qed

lemma world_spawn [simp]: "world (spawn ts r) = fst r"
  by (simp add: spawn_def)

lemma pending_spawn [simp]: "pending (spawn ts r) = ts @ (case snd r of None \<Rightarrow> [] | Some t \<Rightarrow> [t])"
  by (simp add: spawn_def)

lemma set_pending_spawn:
  "t \<in> set (pending (spawn ts r)) \<longleftrightarrow> t \<in> set ts \<or> snd r = Some t"
  by (auto simp: spawn_def split: option.splits)

lemma spawn_effects:
  assumes "\<exists>es. trace (fst r) = trace (world c) @ es \<and> no_create es
             \<and> (\<forall>sid. snd r = Some (Await_getSessionState sid) \<longrightarrow> Api_getSessionState sid \<in> set es)"
  shows "\<exists>es. trace (world (spawn (pending c) r)) = trace (world c) @ es
     \<and> (\<forall>sid h. Api_createEventSource sid h \<in> set es
           \<longrightarrow> Await_getSessionState sid \<in> set (pending c))
     \<and> (\<forall>sid. Await_getSessionState sid \<in> set (pending (spawn (pending c) r))
           \<longrightarrow> Await_getSessionState sid \<in> set (pending c) \<or> Api_getSessionState sid \<in> set es)"
proof -
  from assms obtain es where es: "trace (fst r) = trace (world c) @ es" "no_create es"
    "\<And>sid. snd r = Some (Await_getSessionState sid) \<Longrightarrow> Api_getSessionState sid \<in> set es"
    by blast
  have "trace (world (spawn (pending c) r)) = trace (world c) @ es"
    by (simp add: es(1))
  moreover have "Await_getSessionState sid \<in> set (pending c)"
    if "Api_createEventSource sid h \<in> set es" for sid h
    using that es(2) by (simp add: no_create_def)
  moreover have "Await_getSessionState sid \<in> set (pending c) \<or> Api_getSessionState sid \<in> set es"
    if "Await_getSessionState sid \<in> set (pending (spawn (pending c) r))" for sid
    using that es(3) [of sid] unfolding set_pending_spawn by blast
  ultimately show ?thesis by blast
qed

lemma quiet_world:
  assumes "\<exists>es. trace w' = trace w @ es \<and> no_create es"
  shows "\<exists>es. trace (fst (w', None :: task option)) = trace w @ es \<and> no_create es
             \<and> (\<forall>sid. snd (w', None :: task option) = Some (Await_getSessionState sid)
                    \<longrightarrow> Api_getSessionState sid \<in> set es)"
  using assms by simp

lemma quiet_begin:
  assumes "\<exists>es. trace (fst r) = trace w @ es \<and> no_create es"
    and "\<And>sid. snd r \<noteq> Some (Await_getSessionState sid)"
  shows "\<exists>es. trace (fst r) = trace w @ es \<and> no_create es
             \<and> (\<forall>sid. snd r = Some (Await_getSessionState sid) \<longrightarrow> Api_getSessionState sid \<in> set es)"
  using assms by simp

lemma trace_same: "trace w' = trace w \<Longrightarrow> \<exists>es. trace w' = trace w @ es \<and> no_create es"
  by (simp add: no_create_def)

lemma step_effects:
  assumes "step c a = Some c'"
  shows "\<exists>es. trace (world c') = trace (world c) @ es
     \<and> (\<forall>sid h. Api_createEventSource sid h \<in> set es
           \<longrightarrow> Await_getSessionState sid \<in> set (pending c))
     \<and> (\<forall>sid. Await_getSessionState sid \<in> set (pending c')
           \<longrightarrow> Await_getSessionState sid \<in> set (pending c) \<or> Api_getSessionState sid \<in> set es)"
proof (cases a)
  case (Call_startSession cfg)
  with assms have c': "c' = spawn (pending c) (startSession_begin cfg (world c))" by simp
  show ?thesis unfolding c'
    by (rule spawn_effects, rule quiet_begin, rule trace_startSession_begin,
        rule task_startSession_begin)
next
  case (Call_sendMessage msg)
  with assms have c': "c' = spawn (pending c) (sendMessage_begin msg (world c))" by simp
  show ?thesis unfolding c'
    by (rule spawn_effects, rule quiet_begin, rule trace_sendMessage_begin,
        rule task_sendMessage_begin)
next
  case (Call_reviewLyrics v ap f)
  with assms have c': "c' = spawn (pending c) (reviewLyrics_begin v ap f (world c))" by simp
  show ?thesis unfolding c'
    by (rule spawn_effects, rule quiet_begin, rule trace_reviewLyrics_begin,
        rule task_reviewLyrics_begin)
next
  case Call_connectToStream
  with assms have c': "c' = spawn (pending c) (connectToStream_begin (world c))" by simp
  show ?thesis unfolding c'
    by (rule spawn_effects, rule connectToStream_begin_fetches)
next
  case Call_disconnectFromStream
  with assms have c': "c' = spawn (pending c) (disconnectFromStream (world c), None)" by simp
  show ?thesis unfolding c'
    by (rule spawn_effects, rule quiet_world, rule trace_disconnectFromStream)
next
  case (Call_updateSessionState patch)
  with assms have c': "c' = spawn (pending c) (upd (updateSessionState patch) (world c), None)"
    by simp
  show ?thesis unfolding c'
    by (rule spawn_effects, rule quiet_world, rule trace_same, simp)
next
  case (Call_addConversationTurn turn)
  with assms have c': "c' = spawn (pending c) (upd (addConversationTurn turn) (world c), None)"
    by simp
  show ?thesis unfolding c'
    by (rule spawn_effects, rule quiet_world, rule trace_same, simp)
next
  case (Call_addDebugLog log)
  with assms have c': "c' = spawn (pending c) (upd (addDebugLog log) (world c), None)" by simp
  show ?thesis unfolding c'
    by (rule spawn_effects, rule quiet_world, rule trace_same, simp)
next
  case Call_toggleDebugPanel
  with assms have c': "c' = spawn (pending c) (upd toggleDebugPanel (world c), None)" by simp
  show ?thesis unfolding c'
    by (rule spawn_effects, rule quiet_world, rule trace_same, simp)
next
  case (Call_setError e)
  with assms have c': "c' = spawn (pending c) (upd (setError e) (world c), None)" by simp
  show ?thesis unfolding c'
    by (rule spawn_effects, rule quiet_world, rule trace_same, simp)
next
  case Call_clearSession
  with assms have c': "c' = spawn (pending c) (clearSession (world c), None)" by simp
  show ?thesis unfolding c'
    by (rule spawn_effects, rule quiet_world, rule trace_clearSession)
next
  case Call_fetchSessionResult
  with assms have c': "c' = spawn (pending c) (fetchSessionResult_begin (world c))" by simp
  show ?thesis unfolding c'
    by (rule spawn_effects, rule quiet_begin, rule trace_fetchSessionResult_begin,
        rule task_fetchSessionResult_begin)
next
  case (Set_sessionId sid)
  with assms have c': "c' = spawn (pending c) (upd (\<lambda>s. s\<lparr>sessionId := Some sid\<rparr>) (world c), None)"
    by simp
  show ?thesis unfolding c'
    by (rule spawn_effects, rule quiet_world, rule trace_same, simp)
next
  case (Settle i r)
  with assms have i: "i < length (pending c)"
    by (simp split: if_splits)
  with assms Settle obtain w' t' where
    k: "continue (pending c ! i) r (world c) = Some (w', t')"
    and c': "c' = spawn (take i (pending c) @ drop (Suc i) (pending c)) (w', t')"
    by (cases "continue (pending c ! i) r (world c)") auto
  from continue_trace [OF k] obtain es where
    es: "trace w' = trace (world c) @ es"
      "\<And>sid h. Api_createEventSource sid h \<in> set es \<Longrightarrow> pending c ! i = Await_getSessionState sid"
      "\<And>sid. t' = Some (Await_getSessionState sid) \<Longrightarrow> Api_getSessionState sid \<in> set es"
    by blast
  have sub: "set (take i (pending c) @ drop (Suc i) (pending c)) \<subseteq> set (pending c)"
    using set_take_subset [of i "pending c"] set_drop_subset [of "Suc i" "pending c"] by auto
  have "trace (world c') = trace (world c) @ es" by (simp add: c' es(1))
  moreover have "Await_getSessionState sid \<in> set (pending c)"
    if "Api_createEventSource sid h \<in> set es" for sid h
    using es(2) [OF that] nth_mem [OF i] by simp
  moreover have "Await_getSessionState sid \<in> set (pending c) \<or> Api_getSessionState sid \<in> set es"
    if "Await_getSessionState sid \<in> set (pending c')" for sid
    using that sub es(3) [of sid] unfolding c' set_pending_spawn by auto
  ultimately show ?thesis by blast
next
  case (Es_fire h cb)
  with assms have c': "c' = spawn (pending c) (fire cb (world c))"
    by (simp split: if_splits)
  have q: "\<exists>es. trace (fst (fire cb (world c))) = trace (world c) @ es \<and> no_create es"
    using fire_quiet [of cb "world c"] by blast
  have n: "snd (fire cb (world c)) \<noteq> Some (Await_getSessionState sid)" for sid
    using fire_quiet [of cb "world c" sid] by blast
  show ?thesis unfolding c'
    by (rule spawn_effects, rule quiet_begin, rule q, rule n)
qed

subsection \<open>Snapshot, then subscription\<close>

text \<open>
  An event source is created only by the continuation of \<open>connectToStream\<close>, and that
  continuation is pending only after the snapshot was requested. So the order holds in every
  configuration the store can reach, whatever else runs between the request and its settling.
\<close>

lemma awaits_fetched_iff:
  "list_all (awaits_fetched tr) ts \<longleftrightarrow>
     (\<forall>sid. Await_getSessionState sid \<in> set ts \<longrightarrow> Api_getSessionState sid \<in> set tr)"
  by (auto simp: list_all_iff awaits_fetched_def split: task.splits)

lemma protocol_inv_step:
  assumes "protocol_inv c" and "step c a = Some c'"
  shows "protocol_inv c'"
proof -
  from step_effects [OF assms(2)] obtain es where
    es: "trace (world c') = trace (world c) @ es"
      "\<And>sid h. Api_createEventSource sid h \<in> set es \<Longrightarrow> Await_getSessionState sid \<in> set (pending c)"
      "\<And>sid. Await_getSessionState sid \<in> set (pending c') \<Longrightarrow>
          Await_getSessionState sid \<in> set (pending c) \<or> Api_getSessionState sid \<in> set es"
    by blast
  from assms(1) have f: "fetch_before_open [] (trace (world c))"
    and p: "\<And>sid. Await_getSessionState sid \<in> set (pending c) \<Longrightarrow>
               Api_getSessionState sid \<in> set (trace (world c))"
    by (simp_all add: protocol_inv_def awaits_fetched_iff)
  have "fetch_before_open ([sid. Api_getSessionState sid \<leftarrow> rev (trace (world c))] @ []) es"
  proof (rule fetch_before_open_creates)
    fix sid h assume "Api_createEventSource sid h \<in> set es"
    then have "Api_getSessionState sid \<in> set (trace (world c))" using es(2) p by blast
    then show "sid \<in> set ([sid. Api_getSessionState sid \<leftarrow> rev (trace (world c))] @ [])"
      by force
  qed
  with f have "fetch_before_open [] (trace (world c'))"
    by (simp add: es(1) fetch_before_open_append)
  moreover have "list_all (awaits_fetched (trace (world c'))) (pending c')"
    unfolding awaits_fetched_iff using es(3) p by (auto simp: es(1))
  ultimately show ?thesis by (simp add: protocol_inv_def)
qed

lemma protocol_inv_run:
  "protocol_inv c \<Longrightarrow> run c as = Some c' \<Longrightarrow> protocol_inv c'"
proof (induction as arbitrary: c)
  case Nil
  then show ?case by simp
next
  case (Cons a as)
  then show ?case
    by (cases "step c a") (auto dest: protocol_inv_step)
qed

lemma protocol_inv_initial: "protocol_inv initial_config"
  by (simp add: protocol_inv_def initial_config_def initial_world_def)

text \<open>
  C4. In every run of \<open>connectToStream\<close> with a session id, the snapshot is requested first
  and the event source is opened only afterwards, by the continuation that runs once the
  request has settled: up to its \<^verbatim>\<open>await\<close> the action closes the event source the store
  holds, if any, and requests the snapshot; the continuation opens the event source if the
  request resolved (and \<^verbatim>\<open>createEventSource\<close> did not throw) and opens nothing otherwise. With
  the empty string as session id the action returns at its guard and neither requests nor
  opens anything. In every reachable configuration, each event source in the trace was created
  after a snapshot request for its session.
\<close>

theorem snapshot_before_subscribe:
  assumes "sessionId (store w) = Some sid"
  shows "new_effects w (fst (connectToStream_begin w))
           = (if sid = [] then [] else closing w @ [Api_getSessionState sid])
       \<and> snd (connectToStream_begin w)
           = (if sid = [] then None else Some (Await_getSessionState sid))
       \<and> new_effects w1 (connectToStream_resume sid out thr w1)
           = (if is_resolved out \<and> \<not> thr then [Api_createEventSource sid (next_es w1)] else [])
       \<and> new_effects w (connectToStream_run out thr w)
           = (if sid = [] then []
              else closing w @ [Api_getSessionState sid] @
                   (if is_resolved out \<and> \<not> thr then [Api_createEventSource sid (next_es w)] else []))
       \<and> fetch_before_open [] (new_effects w (connectToStream_run out thr w))
       \<and> (run initial_config as = Some c \<longrightarrow> fetch_before_open [] (trace (world c)))"
proof -
  have t: "truthy (Some sid) = (sid \<noteq> [])"
    by (simp add: truthy_def)
  have a: "new_effects w (fst (connectToStream_begin w))
           = (if sid = [] then [] else closing w @ [Api_getSessionState sid])"
    by (simp add: new_effects_def trace_connectToStream_begin assms t)
  have b: "snd (connectToStream_begin w)
           = (if sid = [] then None else Some (Await_getSessionState sid))"
    by (simp add: snd_connectToStream_begin assms t)
  have c: "new_effects w1 (connectToStream_resume sid out thr w1)
           = (if is_resolved out \<and> \<not> thr then [Api_createEventSource sid (next_es w1)] else [])"
    by (simp add: new_effects_def trace_connectToStream_resume)
  have r: "connectToStream_run out thr w =
      (if sid = [] then fst (connectToStream_begin w)
       else connectToStream_resume sid out thr (fst (connectToStream_begin w)))"
    using b by (cases "connectToStream_begin w") (simp add: connectToStream_run_def)
  have d: "new_effects w (connectToStream_run out thr w)
           = (if sid = [] then []
              else closing w @ [Api_getSessionState sid] @
                   (if is_resolved out \<and> \<not> thr then [Api_createEventSource sid (next_es w)] else []))"
    by (simp add: r new_effects_def trace_connectToStream_resume trace_connectToStream_begin
        assms truthy_def next_es_connectToStream_begin)
  have e: "fetch_before_open [] (new_effects w (connectToStream_run out thr w))"
    unfolding d by (simp add: closing_def fetch_before_open_append split: option.splits)
  have f: "fetch_before_open [] (trace (world c))" if "run initial_config as = Some c"
    using protocol_inv_run [OF protocol_inv_initial that] by (simp add: protocol_inv_def)
  from a b c d e f show ?thesis by blast
qed

theorem snapshot_before_subscribe_witness:
  "sessionId (store (world connected_example)) = Some ''s1''
   \<and> new_effects (world connected_example)
         (connectToStream_run no_snapshot False (world connected_example))
       = [Es_close 0, Api_getSessionState ''s1'', Api_createEventSource ''s1'' 1]
   \<and> run initial_config [Set_sessionId ''s1'', Call_connectToStream,
         Settle 0 (Got_getSessionState no_snapshot False), Es_fire 0 On_open] = Some connected_example
   \<and> fetch_before_open [] (trace (world connected_example))"
proof -
  have s: "sessionId (store (world connected_example)) = Some ''s1''"
    by (simp add: example_simps)
  have n: "next_es (world connected_example) = 1" "closing (world connected_example) = [Es_close 0]"
    "is_resolved no_snapshot"
    by (simp_all add: example_simps closing_def)
  from snapshot_before_subscribe [OF s, where out = no_snapshot and thr = False
      and as = "[Set_sessionId ''s1'', Call_connectToStream,
         Settle 0 (Got_getSessionState no_snapshot False), Es_fire 0 On_open]"
      and c = connected_example]
    connected_example_reachable s n
  show ?thesis by simp
qed

subsection \<open>A dropped stream\<close>

text \<open>
  C2 says that on a dropped stream the store closes the old subscription and runs the
  snapshot-then-subscribe sequence again. The \<^verbatim>\<open>onerror\<close> callback does neither: in the
  connected example, after it has run, the trace is what it was (no \<open>Es_close\<close>, no new
  request), nothing is pending, and event source \<open>0\<close> is still open.
\<close>

theorem dropped_stream_no_reconnect_counterexample:
  "run initial_config [Set_sessionId ''s1'', Call_connectToStream,
      Settle 0 (Got_getSessionState no_snapshot False), Es_fire 0 On_open] = Some connected_example
   \<and> step connected_example (Es_fire 0 On_error) \<noteq> None
   \<and> trace (world (the (step connected_example (Es_fire 0 On_error))))
       = [Api_getSessionState ''s1'', Api_createEventSource ''s1'' 0]
   \<and> Es_close 0 \<notin> set (trace (world (the (step connected_example (Es_fire 0 On_error)))))
   \<and> pending (the (step connected_example (Es_fire 0 On_error))) = []
   \<and> open_es (trace (world (the (step connected_example (Es_fire 0 On_error))))) = [0]"
  by (simp add: example_simps fire_def on_open_def on_error_def world_simps
      connectToStream_begin_def connectToStream_resume_def)

text \<open>
  C2, amended. When an open event source reports an error, the store sets \<open>isConnected\<close> to
  false and \<open>connectionError\<close> to the connection-failed message, and that is all: the replicated
  state and the event source the store holds are kept, nothing is closed, and no snapshot
  request or new subscription is started.
\<close>

theorem dropped_stream_only_flags:
  assumes "h \<in> set (open_es (trace (world c)))"
  shows "step c (Es_fire h On_error)
           = Some (c\<lparr>world := (world c)\<lparr>store := (store (world c))
                      \<lparr>isConnected := False, connectionError := Some SSE_FAILED\<rparr>\<rparr>\<rparr>)"
  using assms by (simp add: fire_def on_error_def world_simps)

theorem dropped_stream_only_flags_witness:
  "0 \<in> set (open_es (trace (world connected_example)))
   \<and> step connected_example (Es_fire 0 On_error)
       = Some (connected_example\<lparr>world := (world connected_example)\<lparr>store :=
           (store (world connected_example))\<lparr>isConnected := False,
              connectionError := Some SSE_FAILED\<rparr>\<rparr>\<rparr>)"
proof -
  have h: "0 \<in> set (open_es (trace (world connected_example)))"
    by (simp add: example_simps)
  from dropped_stream_only_flags [OF h] h show ?thesis by blast
qed

subsection \<open>The conversation history\<close>

lemma store_upd [simp]: "store (upd f w) = f (store w)"
  by (simp add: upd_def)

lemma store_emit [simp]: "store (emit e w) = store w"
  by (simp add: emit_def)

lemma history_sendMessage_begin [simp]:
  "conversationHistory (store (fst (sendMessage_begin msg w))) = conversationHistory (store w)"
  by (simp add: sendMessage_begin_def split: option.splits)

lemma history_reviewLyrics_begin [simp]:
  "conversationHistory (store (fst (reviewLyrics_begin v a f w))) = conversationHistory (store w)"
  by (simp add: reviewLyrics_begin_def split: option.splits)

lemma history_fetchSessionResult_begin [simp]:
  "conversationHistory (store (fst (fetchSessionResult_begin w))) = conversationHistory (store w)"
  by (simp add: fetchSessionResult_begin_def split: option.splits)

lemma history_startSession_begin [simp]:
  "conversationHistory (store (fst (startSession_begin cfg w))) = conversationHistory (store w)"
  by (simp add: startSession_begin_def)

lemma history_connectToStream_begin [simp]:
  "conversationHistory (store (fst (connectToStream_begin w))) = conversationHistory (store w)"
  by (simp add: connectToStream_begin_def Let_def split: option.splits)

lemma history_disconnectFromStream [simp]:
  "conversationHistory (store (disconnectFromStream w)) = conversationHistory (store w)"
  by (simp add: disconnectFromStream_def split: option.splits)

lemma history_clearSession [simp]: "conversationHistory (store (clearSession w)) = []"
  by (simp add: clearSession_def)

lemma history_sendMessage_resume [simp]:
  "conversationHistory (store (sendMessage_resume out w)) = conversationHistory (store w)"
  by (simp add: sendMessage_resume_def split: api_outcome.splits)

lemma history_reviewLyrics_resume [simp]:
  "conversationHistory (store (reviewLyrics_resume v a f out w)) = conversationHistory (store w)"
  by (simp add: reviewLyrics_resume_def split: api_outcome.splits)

lemma history_fetchSessionResult_resume [simp]:
  "conversationHistory (store (fetchSessionResult_resume out w)) = conversationHistory (store w)"
  by (simp add: fetchSessionResult_resume_def split: api_outcome.splits option.splits)

lemma history_startSession_resume [simp]:
  "conversationHistory (store (fst (startSession_resume out w))) = conversationHistory (store w)"
  by (simp add: startSession_resume_def split: api_outcome.splits option.splits)

lemma history_connectToStream_resume_rejected [simp]:
  "conversationHistory (store (connectToStream_resume sid (Rejected t) thr w))
     = conversationHistory (store w)"
  by (simp add: connectToStream_resume_def)

lemma history_fire:
  "conversationHistory (store (fst (fire cb w))) =
     (case cb of On_chat_message (Some turn) \<Rightarrow> conversationHistory (store w) @ [turn]
               | _ \<Rightarrow> conversationHistory (store w))"
  by (simp add: fire_def on_open_def on_error_def on_chat_message_def on_state_update_def
      on_debug_log_def on_error_event_def on_complete_def addConversationTurn_def addDebugLog_def
      split: es_callback.splits option.splits)

lemma history_continue:
  assumes "continue t r w = Some (w', t')"
  shows "conversationHistory (store w') = conversationHistory (store w)
       \<or> (\<exists>sid res thr. r = Got_getSessionState (Resolved res) thr)"
proof (cases r)
  case (Got_startSession out)
  with assms show ?thesis
    using history_startSession_resume [of out w] by (cases t) auto
next
  case (Got_sendMessage out)
  with assms show ?thesis by (cases t) auto
next
  case (Got_reviewLyrics out)
  with assms show ?thesis by (cases t) auto
next
  case (Got_getSessionState out thr)
  with assms show ?thesis by (cases t; cases out) auto
next
  case (Got_getSessionResult out)
  with assms show ?thesis by (cases t) auto
qed

lemma step_history:
  assumes "step c a = Some c'"
  shows "conversationHistory (store (world c')) = conversationHistory (store (world c))
       \<or> conversationHistory (store (world c')) = []
       \<or> appends_turn a \<or> hydrates a"
proof (cases a)
  case (Settle i r)
  with assms obtain w' t' where
    k: "continue (pending c ! i) r (world c) = Some (w', t')"
    and c': "c' = spawn (take i (pending c) @ drop (Suc i) (pending c)) (w', t')"
    by (cases "continue (pending c ! i) r (world c)") (auto split: if_splits)
  from history_continue [OF k] show ?thesis
    by (auto simp: c' Settle)
next
  case (Es_fire h cb)
  with assms have c': "c' = spawn (pending c) (fire cb (world c))"
    by (simp split: if_splits)
  show ?thesis
    unfolding c' Es_fire
    by (cases cb) (auto simp: history_fire split: option.splits)
qed (use assms in \<open>auto simp: updateSessionState_def addDebugLog_def toggleDebugPanel_def
      setError_def\<close>)

text \<open>
  C8 says that \<open>conversationHistory\<close> grows only when a \<^verbatim>\<open>chat_message\<close> event is applied.
  It also grows when the continuation of \<open>connectToStream\<close> replaces it by the history of the
  snapshot: here from the empty history to one turn, in a step that appends no turn.
\<close>

theorem history_grows_by_snapshot_counterexample:
  "run initial_config [Set_sessionId ''s1'', Call_connectToStream] = Some awaiting_snapshot_example
   \<and> step awaiting_snapshot_example (Settle 0 (Got_getSessionState one_turn_snapshot False)) \<noteq> None
   \<and> conversationHistory (store (world awaiting_snapshot_example)) = []
   \<and> conversationHistory (store (world (the
        (step awaiting_snapshot_example (Settle 0 (Got_getSessionState one_turn_snapshot False))))))
       = [hello_turn]
   \<and> \<not> appends_turn (Settle 0 (Got_getSessionState one_turn_snapshot False))"
  by (simp add: example_simps awaiting_snapshot_example_def one_turn_snapshot_def world_simps
      connectToStream_begin_def connectToStream_resume_def hydrate_def or_empty_def)

text \<open>
  C8, amended. \<open>sendMessage\<close> never changes \<open>conversationHistory\<close>: before and after its
  \<^verbatim>\<open>await\<close> it changes no field but \<open>isLoading\<close> and \<open>error\<close>. In any step of the store,
  \<open>conversationHistory\<close> becomes longer only if the step appends a turn with
  \<open>addConversationTurn\<close>, as the \<^verbatim>\<open>chat_message\<close> listener does, or if it is the continuation
  of \<open>connectToStream\<close> installing the history of the fetched snapshot; the \<^verbatim>\<open>chat_message\<close>
  listener appends exactly the received turn.
\<close>

theorem sendMessage_leaves_history:
  assumes "step c a = Some c'"
  shows "(store (fst (sendMessage_begin msg w)))\<lparr>isLoading := l, error := e\<rparr>
           = (store w)\<lparr>isLoading := l, error := e\<rparr>
       \<and> (store (sendMessage_resume out w))\<lparr>isLoading := l, error := e\<rparr>
           = (store w)\<lparr>isLoading := l, error := e\<rparr>
       \<and> conversationHistory (store (sendMessage_run msg out w)) = conversationHistory (store w)
       \<and> (length (conversationHistory (store (world c)))
            < length (conversationHistory (store (world c')))
          \<longrightarrow> appends_turn a \<or> hydrates a)
       \<and> (\<forall>h turn. a = Es_fire h (On_chat_message (Some turn))
          \<longrightarrow> conversationHistory (store (world c'))
                = conversationHistory (store (world c)) @ [turn])"
proof -
  have b: "(store (fst (sendMessage_begin msg w)))\<lparr>isLoading := l, error := e\<rparr>
           = (store w)\<lparr>isLoading := l, error := e\<rparr>"
    by (simp add: sendMessage_begin_def split: option.splits)
  have r: "(store (sendMessage_resume out w))\<lparr>isLoading := l, error := e\<rparr>
           = (store w)\<lparr>isLoading := l, error := e\<rparr>"
    by (simp add: sendMessage_resume_def split: api_outcome.splits)
  have "sendMessage_run msg out w = fst (sendMessage_begin msg w)
      \<or> sendMessage_run msg out w = sendMessage_resume out (fst (sendMessage_begin msg w))"
    by (cases "sendMessage_begin msg w")
      (auto simp: sendMessage_run_def split: option.splits task.splits)
  then have u: "conversationHistory (store (sendMessage_run msg out w))
      = conversationHistory (store w)"
    by auto
  have g: "appends_turn a \<or> hydrates a"
    if "length (conversationHistory (store (world c)))
            < length (conversationHistory (store (world c')))"
    using step_history [OF assms] that by auto
  have m: "conversationHistory (store (world c')) = conversationHistory (store (world c)) @ [turn]"
    if "a = Es_fire h (On_chat_message (Some turn))" for h turn
    using assms that by (auto simp: history_fire split: if_splits)
  from b r u g m show ?thesis by blast
qed

theorem sendMessage_leaves_history_witness:
  "step connected_example (Es_fire 0 (On_chat_message (Some hello_turn))) \<noteq> None
   \<and> conversationHistory (store (world (the
        (step connected_example (Es_fire 0 (On_chat_message (Some hello_turn))))))) = [hello_turn]
   \<and> conversationHistory (store (world connected_example)) = []
   \<and> appends_turn (Es_fire 0 (On_chat_message (Some hello_turn)))
   \<and> conversationHistory (store (sendMessage_run ''hi'' ok_response (world connected_example))) = []"
proof -
  define c' where "c' = the (step connected_example (Es_fire 0 (On_chat_message (Some hello_turn))))"
  have s: "step connected_example (Es_fire 0 (On_chat_message (Some hello_turn))) = Some c'"
    by (simp add: c'_def example_simps)
  have e: "conversationHistory (store (world connected_example)) = []"
    by (simp add: example_simps)
  from sendMessage_leaves_history [OF s, where msg = "''hi''" and w = "world connected_example"
      and out = ok_response]
  show ?thesis
    using s e by (simp add: c'_def [symmetric])
qed

subsection \<open>One subscription at a time\<close>

text \<open>
  When a call of \<open>connectToStream\<close> runs to its end before anything else happens, the event
  source the store holds stays the only open one: the call closes the one it finds before it
  opens the next, and \<open>disconnectFromStream\<close> and \<open>clearSession\<close> close the one they find.
\<close>

lemma open_es_snoc: "open_es (tr @ [e]) = open_after (open_es tr) e"
  by (simp add: open_es_def)

lemma open_es_append: "open_es (tr @ es) = foldl open_after (open_es tr) es"
  by (simp add: open_es_def)

lemma single_subscription_initial: "single_subscription initial_world"
  by (simp add: single_subscription_def initial_world_def initial_store_def open_es_def)

lemma single_subscription_disconnect:
  assumes "single_subscription w"
  shows "single_subscription (disconnectFromStream w)"
proof (cases "eventSource (store w)")
  case None
  with assms show ?thesis by (simp add: disconnectFromStream_def)
next
  case (Some h)
  with assms have "open_es (trace w) = [h]" by (simp add: single_subscription_def)
  with Some show ?thesis
    by (simp add: single_subscription_def disconnectFromStream_def open_es_snoc open_after_def)
qed

lemma eventSource_disconnect: "eventSource (store (disconnectFromStream w)) = None"
  by (simp add: disconnectFromStream_def split: option.splits)

lemma single_subscription_clear:
  assumes "single_subscription w"
  shows "single_subscription (clearSession w)"
  using single_subscription_disconnect [OF assms] eventSource_disconnect [of w]
  by (simp add: single_subscription_def clearSession_def)

lemma single_subscription_connect:
  assumes "single_subscription w"
  shows "single_subscription (connectToStream_run out thr w)"
proof (cases "truthy (sessionId (store w))")
  case False
  then have "connectToStream_begin w = (w, None)"
    by (auto simp: connectToStream_begin_def truthy_def split: option.splits)
  with assms show ?thesis by (simp add: connectToStream_run_def)
next
  case True
  then obtain sid where sid: "sessionId (store w) = Some sid" "sid \<noteq> []"
    using truthy_sessionId by blast
  define w1 where "w1 = fst (connectToStream_begin w)"
  have b: "connectToStream_begin w = (w1, Some (Await_getSessionState sid))"
    using sid by (simp add: w1_def connectToStream_begin_def Let_def)
  have e1: "eventSource (store w1) = None"
    using sid by (simp add: w1_def connectToStream_begin_def Let_def split: option.splits)
  have "open_es (trace w1) = []"
  proof (cases "eventSource (store w)")
    case None
    with assms sid show ?thesis
      by (simp add: w1_def connectToStream_begin_def single_subscription_def open_es_snoc
          open_after_def)
  next
    case (Some h)
    with assms have "open_es (trace w) = [h]" by (simp add: single_subscription_def)
    with Some sid show ?thesis
      by (simp add: w1_def connectToStream_begin_def open_es_append open_after_def)
  qed
  with e1 have o1: "open_es (trace w1) = []" by simp
  have "single_subscription (connectToStream_resume sid out thr w1)"
  proof (cases out)
    case (Rejected t)
    with e1 o1 show ?thesis
      by (simp add: single_subscription_def connectToStream_resume_def)
  next
    case (Resolved r)
    define w2 where "w2 = (case data r of
                    Some st \<Rightarrow> if success r then upd (hydrate st) w1 else w1
                  | None \<Rightarrow> w1)"
    have w2: "trace w2 = trace w1" "eventSource (store w2) = None"
      using e1 by (auto simp: w2_def hydrate_def split: option.splits)
    show ?thesis
      using w2 o1
      by (simp add: Resolved connectToStream_resume_def w2_def [symmetric] Let_def
          single_subscription_def open_es_snoc open_after_def emit_def)
  qed
  with b show ?thesis by (simp add: connectToStream_run_def)
qed

text \<open>
  C6. The guard of \<open>connectToStream\<close> looks at the event source the store holds before the
  \<^verbatim>\<open>await\<close>, and the new event source is created after it. Two calls that overlap both find
  no event source to close and both create one: two event sources for session \<open>s1\<close> are open
  at once, the store holds only the second, and \<open>disconnectFromStream\<close> leaves the first open.
\<close>

theorem overlapping_connects_two_open:
  "run initial_config [Set_sessionId ''s1'', Call_connectToStream, Call_connectToStream,
      Settle 0 (Got_getSessionState no_snapshot False),
      Settle 0 (Got_getSessionState no_snapshot False)] = Some overlap_example
   \<and> open_es (trace (world overlap_example)) = [0, 1]
   \<and> eventSource (store (world overlap_example)) = Some 1
   \<and> open_es (trace (disconnectFromStream (world overlap_example))) = [0]"
  by (simp add: example_simps overlap_example_def world_simps connectToStream_begin_def
      connectToStream_resume_def disconnectFromStream_def)

end
